theory Spec2Isabelle
  imports Complex_Main
begin

section \<open>Values, errors and the outside world\<close>

text \<open>
  The FreshBooks client of \<^verbatim>\<open>freshbooks.py\<close> is a Python class whose methods read the
  clock, read and write the \<^verbatim>\<open>.env\<close> file, talk to the network and print. The embedding
  makes each of these explicit: a method takes the in-memory object (\<open>client\<close>) and the
  outside world (\<open>world\<close>) and returns its result, either a raised exception (\<open>Inl\<close>) or a
  value (\<open>Inr\<close>), together with the object and the world as it leaves them.
\<close>

text \<open>A decoded JSON document, as \<^verbatim>\<open>response.json()\<close> returns it.\<close>

datatype json =
    JNull
  | JBool bool
  | JNum real
  | JStr string
  | JArr "json list"
  | JObj "(string \<times> json) list"

text \<open>Python truthiness, as tested by \<^verbatim>\<open>not x\<close>.\<close>

fun truthy :: "json \<Rightarrow> bool" where
  "truthy JNull = False"
| "truthy (JBool b) = b"
| "truthy (JNum r) = (r \<noteq> 0)"
| "truthy (JStr s) = (s \<noteq> [])"
| "truthy (JArr xs) = (xs \<noteq> [])"
| "truthy (JObj kvs) = (kvs \<noteq> [])"

text \<open>Truthiness of an \<^verbatim>\<open>Optional[str]\<close>: \<^verbatim>\<open>None\<close> and the empty string are falsy.\<close>

fun str_truthy :: "string option \<Rightarrow> bool" where
  "str_truthy None = False"
| "str_truthy (Some s) = (s \<noteq> [])"

text \<open>
  The exceptions the code raises or lets through. \<open>HTTPError\<close> carries the status that
  \<^verbatim>\<open>raise_for_status\<close> rejected; \<open>OSError\<close> stands for a failure of the storage medium.
\<close>

datatype exn =
    ValueError string
  | TypeError
  | AttributeError
  | JSONDecodeError
  | HTTPError int
  | ConnectionError
  | OSError string

text \<open>
  \<^verbatim>\<open>except ValueError\<close> also catches the JSON decoding error, which is a subclass of
  \<^verbatim>\<open>ValueError\<close>.
\<close>

fun is_ValueError :: "exn \<Rightarrow> bool" where
  "is_ValueError (ValueError m) = True"
| "is_ValueError JSONDecodeError = True"
| "is_ValueError e = False"

text \<open>
  A Python float: a finite value, taken as an exact real, or one of the three special
  values that \<^verbatim>\<open>float()\<close> also accepts (\<^verbatim>\<open>'inf'\<close>, \<^verbatim>\<open>'-inf'\<close>, \<^verbatim>\<open>'nan'\<close>).
\<close>

datatype pyfloat = Fin real | PosInf | NegInf | NaN

fun float_sub :: "pyfloat \<Rightarrow> real \<Rightarrow> pyfloat" where
  "float_sub (Fin x) d = Fin (x - d)"
| "float_sub PosInf d = PosInf"
| "float_sub NegInf d = NegInf"
| "float_sub NaN d = NaN"

text \<open>\<^verbatim>\<open>now > y\<close> for a finite \<open>now\<close>: every comparison with NaN is false.\<close>

fun real_gt_float :: "real \<Rightarrow> pyfloat \<Rightarrow> bool" where
  "real_gt_float now (Fin y) = (now > y)"
| "real_gt_float now PosInf = False"
| "real_gt_float now NegInf = True"
| "real_gt_float now NaN = False"

text \<open>
  Python's built-in \<^verbatim>\<open>float(s)\<close> on a string (\<open>None\<close> when it raises \<^verbatim>\<open>ValueError\<close>) and
  \<^verbatim>\<open>str(x)\<close> on a float are not part of the repository: they are parameters of the model.
\<close>

record builtins =
  float_py :: "string \<Rightarrow> pyfloat option"
  str_py :: "real \<Rightarrow> string"

text \<open>
  The content of a dotenv file: its key-value bindings, in file order.
\<close>

type_synonym dotenv = "(string \<times> string) list"

record response =
  status_code :: int
  body :: "json option"

text \<open>What the program prints, with the exception it formats into the message.\<close>

datatype log_msg =
    TokensSaved
  | ErrorSaving exn
  | RestoredFromBackup
  | Refreshing
  | ExpiredRefreshing
  | RefreshFailed exn
  | Got401
  | UnexpectedRefreshError exn

text \<open>
  The observable events of a run, in order: a line printed, a \<^verbatim>\<open>requests.post\<close> to the
  token endpoint (url, form data), a \<^verbatim>\<open>requests.request\<close> to the API (method, url,
  headers, json body, query parameters).
\<close>

datatype event =
    Printed log_msg
  | Post string "(string \<times> string option) list"
  | Request string string "(string \<times> string) list" "json option" "json option"

text \<open>
  The outcome the environment has in store for one write to the store: the write goes
  through, or it raises and leaves the file in the given state (absent, untouched,
  truncated, half-written: whatever the failure left behind).
\<close>

datatype write_outcome = Written | Failed exn "dotenv option"

text \<open>
  The world outside the object: the files by path, the clock (the \<open>n\<close>-th reading of
  \<^verbatim>\<open>datetime.now().timestamp()\<close> and how many were taken), the outcomes of the coming
  writes to the store, in the order in which they are made (the \<^verbatim>\<open>set_key\<close> calls and the
  write by which the handler restores the store; all succeed once the list is used up),
  the outcomes of the coming HTTP calls, and the events so far. Faults are injected at the
  writes to the store; taking the backup copy, removing it and printing are taken to
  succeed.
\<close>

record world =
  fs :: "string \<rightharpoonup> dotenv"
  clock :: "nat \<Rightarrow> real"
  ticks :: nat
  write_plan :: "write_outcome list"
  net :: "(exn + response) list"
  trace :: "event list"

text \<open>The fields of \<^verbatim>\<open>FreshBooksClient\<close> the methods below use.\<close>

record client =
  account_id :: string
  access_token :: string
  refresh_token :: "string option"
  token_expires_at :: "string option"
  client_id :: "string option"
  client_secret :: "string option"
  token_url :: string
  env_path :: string
  base_url :: string
  headers :: "(string \<times> string) list"

type_synonym 'a outcome = "(exn + 'a) \<times> client \<times> world"

section \<open>Primitives\<close>

definition nl :: string where
  "nl = [CHR 0x0A]"

definition log :: "log_msg \<Rightarrow> world \<Rightarrow> world" where
  "log m w = w\<lparr>trace := trace w @ [Printed m]\<rparr>"

definition timestamp_now :: "world \<Rightarrow> real \<times> world" where
  "timestamp_now w = (clock w (ticks w), w\<lparr>ticks := Suc (ticks w)\<rparr>)"

text \<open>\<^verbatim>\<open>d[k] = v\<close> on a Python dict: the key keeps its place, a new key goes last.\<close>

fun dict_set :: "string \<Rightarrow> 'v \<Rightarrow> (string \<times> 'v) list \<Rightarrow> (string \<times> 'v) list" where
  "dict_set k v [] = [(k, v)]"
| "dict_set k v ((k', v') # kvs) =
     (if k' = k then (k, v) # kvs else (k', v') # dict_set k v kvs)"

text \<open>\<^verbatim>\<open>d.get(k, default)\<close> on a decoded JSON object.\<close>

definition dget :: "(string \<times> json) list \<Rightarrow> string \<Rightarrow> json \<Rightarrow> json" where
  "dget d k dflt = (case map_of d k of None \<Rightarrow> dflt | Some v \<Rightarrow> v)"

text \<open>Calling \<^verbatim>\<open>.get\<close> on a decoded document that is not an object raises.\<close>

fun as_dict :: "json \<Rightarrow> exn + (string \<times> json) list" where
  "as_dict (JObj d) = Inr d"
| "as_dict v = Inl AttributeError"

definition response_json :: "response \<Rightarrow> exn + json" where
  "response_json r = (case body r of None \<Rightarrow> Inl JSONDecodeError | Some j \<Rightarrow> Inr j)"

text \<open>\<^verbatim>\<open>Response.raise_for_status\<close> raises for the 4xx and 5xx statuses only.\<close>

definition raise_for_status :: "response \<Rightarrow> exn + unit" where
  "raise_for_status r =
     (if 400 \<le> status_code r \<and> status_code r < 600 then Inl (HTTPError (status_code r))
      else Inr ())"

text \<open>
  An HTTP call takes the next outcome the network has in store; with none left the
  connection fails. The call is recorded whether it returns or raises.
\<close>

definition next_outcome :: "world \<Rightarrow> (exn + response) \<times> world" where
  "next_outcome w =
     (case net w of
        [] \<Rightarrow> (Inl ConnectionError, w)
      | out # rest \<Rightarrow> (out, w\<lparr>net := rest\<rparr>))"

definition http_post ::
  "world \<Rightarrow> string \<Rightarrow> (string \<times> string option) list \<Rightarrow> (exn + response) \<times> world" where
  "http_post w url data = next_outcome (w\<lparr>trace := trace w @ [Post url data]\<rparr>)"

definition http_request ::
  "world \<Rightarrow> string \<Rightarrow> string \<Rightarrow> (string \<times> string) list \<Rightarrow> json option \<Rightarrow> json option
     \<Rightarrow> (exn + response) \<times> world" where
  "http_request w method url hdrs data params =
     next_outcome (w\<lparr>trace := trace w @ [Request method url hdrs data params]\<rparr>)"

subsection \<open>The dotenv library\<close>

text \<open>
  \<^verbatim>\<open>set_key\<close> belongs to the python-dotenv library, not to the repository. It is modelled
  by what it does to the bindings of the file: every line that binds the key is
  rewritten, a key not yet bound is appended, a file that does not exist is created. It
  calls a string method on the value, so a value that is not a string raises before the
  file is touched.
\<close>

definition dotenv_set :: "string \<Rightarrow> string \<Rightarrow> dotenv \<Rightarrow> dotenv" where
  "dotenv_set k v kvs =
     (if k \<in> fst ` set kvs then map (\<lambda>(k', v'). if k' = k then (k, v) else (k', v')) kvs
      else kvs @ [(k, v)])"

definition file_bindings :: "world \<Rightarrow> string \<Rightarrow> dotenv" where
  "file_bindings w path = (case fs w path of None \<Rightarrow> [] | Some kvs \<Rightarrow> kvs)"

fun set_key :: "world \<Rightarrow> string \<Rightarrow> string \<Rightarrow> json \<Rightarrow> (exn + unit) \<times> world" where
  "set_key w path key (JStr v) =
     (case write_plan w of
        [] \<Rightarrow> (Inr (), w\<lparr>fs := (fs w)(path \<mapsto> dotenv_set key v (file_bindings w path))\<rparr>)
      | Written # plan \<Rightarrow>
          (Inr (), w\<lparr>fs := (fs w)(path \<mapsto> dotenv_set key v (file_bindings w path)),
                     write_plan := plan\<rparr>)
      | Failed e residue # plan \<Rightarrow>
          (Inl e, w\<lparr>fs := (fs w)(path := residue), write_plan := plan\<rparr>))"
| "set_key w path key v = (Inl AttributeError, w)"

section \<open>Token persistence: \<^verbatim>\<open>atomic_save_tokens\<close>\<close>

definition backup_path :: "client \<Rightarrow> string" where
  "backup_path c = env_path c @ ''.backup''"

text \<open>
  \<^verbatim>\<open>datetime.now().timestamp() + expires_in\<close>: a number is added (a bool counts as 0 or
  1), anything else raises \<^verbatim>\<open>TypeError\<close>.
\<close>

fun add_seconds :: "real \<Rightarrow> json \<Rightarrow> exn + real" where
  "add_seconds now (JNum r) = Inr (now + r)"
| "add_seconds now (JBool b) = Inr (now + (if b then 1 else 0))"
| "add_seconds now v = Inl TypeError"

text \<open>Lines 77-83: the current store is copied to the backup, if there is a store.\<close>

definition save_backup :: "client \<Rightarrow> world \<Rightarrow> world" where
  "save_backup c w =
     (case fs w (env_path c) of
        None \<Rightarrow> w
      | Some content \<Rightarrow> w\<lparr>fs := (fs w)(backup_path c \<mapsto> content)\<rparr>)"

text \<open>
  The value an argument of \<^verbatim>\<open>atomic_save_tokens\<close> has as a string. The assignments to
  the instance variables are reached only after \<^verbatim>\<open>set_key\<close> has accepted the value, which
  it does for strings only; the other cases are never used.
\<close>

fun as_str :: "json \<Rightarrow> string" where
  "as_str (JStr s) = s"
| "as_str v = []"

text \<open>
  Lines 85-101, the body of the \<^verbatim>\<open>try\<close>: the three writes, then the instance variables and
  the header, then the backup is removed.
\<close>

definition write_tokens ::
  "builtins \<Rightarrow> client \<Rightarrow> world \<Rightarrow> json \<Rightarrow> json \<Rightarrow> real \<Rightarrow> unit outcome" where
  "write_tokens ext c w access refresh expires_at =
     (case set_key w (env_path c) ''FRESHBOOKS_ACCESS_TOKEN'' access of
        (Inl e, w1) \<Rightarrow> (Inl e, c, w1)
      | (Inr _, w1) \<Rightarrow>
     (case set_key w1 (env_path c) ''FRESHBOOKS_REFRESH_TOKEN'' refresh of
        (Inl e, w2) \<Rightarrow> (Inl e, c, w2)
      | (Inr _, w2) \<Rightarrow>
     (case set_key w2 (env_path c) ''FRESHBOOKS_TOKEN_EXPIRES_AT''
             (JStr (str_py ext expires_at)) of
        (Inl e, w3) \<Rightarrow> (Inl e, c, w3)
      | (Inr _, w3) \<Rightarrow>
          (Inr (),
           c\<lparr>access_token := as_str access,
             refresh_token := Some (as_str refresh),
             token_expires_at := Some (str_py ext expires_at),
             headers := dict_set ''Authorization'' (''Bearer '' @ as_str access) (headers c)\<rparr>,
           log TokensSaved (w3\<lparr>fs := (fs w3)(backup_path c := None)\<rparr>)))))"

text \<open>
  Lines 106-111, the restore in the handler: if there is a backup, it is read and written
  over the store. The restore can fail like any other write to the store, leaving the store
  in whatever state the failure left behind; then its error is raised in place of the one
  being handled, and the message of line 111 is not printed.
\<close>

definition restore_backup :: "client \<Rightarrow> world \<Rightarrow> (exn + unit) \<times> world" where
  "restore_backup c w =
     (case fs w (backup_path c) of
        None \<Rightarrow> (Inr (), w)
      | Some content \<Rightarrow>
          (case write_plan w of
             [] \<Rightarrow>
               (Inr (), log RestoredFromBackup (w\<lparr>fs := (fs w)(env_path c \<mapsto> content)\<rparr>))
           | Written # plan \<Rightarrow>
               (Inr (), log RestoredFromBackup
                          (w\<lparr>fs := (fs w)(env_path c \<mapsto> content), write_plan := plan\<rparr>))
           | Failed e residue # plan \<Rightarrow>
               (Inl e, w\<lparr>fs := (fs w)(env_path c := residue), write_plan := plan\<rparr>)))"

text \<open>
  Lines 62-112. The expiry is computed before the \<^verbatim>\<open>try\<close>; the handler prints the error,
  restores and re-raises it.
\<close>

definition atomic_save_tokens ::
  "builtins \<Rightarrow> client \<Rightarrow> world \<Rightarrow> json \<Rightarrow> json \<Rightarrow> json \<Rightarrow> unit outcome" where
  "atomic_save_tokens ext c w access refresh expires_in =
     (let (now, w0) = timestamp_now w in
      case add_seconds now expires_in of
        Inl e \<Rightarrow> (Inl e, c, w0)
      | Inr expires_at \<Rightarrow>
          (case write_tokens ext c (save_backup c w0) access refresh expires_at of
             (Inr u, c', w') \<Rightarrow> (Inr u, c', w')
           | (Inl e, c', w') \<Rightarrow>
               (case restore_backup c (log (ErrorSaving e) w') of
                  (Inl e', w'') \<Rightarrow> (Inl e', c', w'')
                | (Inr _, w'') \<Rightarrow> (Inl e, c', w''))))"

section \<open>Expiry check: \<^verbatim>\<open>is_token_expired\<close>\<close>

definition is_token_expired :: "builtins \<Rightarrow> client \<Rightarrow> world \<Rightarrow> bool \<times> world" where
  "is_token_expired ext c w =
     (case token_expires_at c of
        None \<Rightarrow> (True, w)
      | Some s \<Rightarrow>
          if s = [] then (True, w)
          else
            (case float_py ext s of
               None \<Rightarrow> (True, w)
             | Some expires_at \<Rightarrow>
                 (let (now, w') = timestamp_now w
                  in (real_gt_float now (float_sub expires_at 300), w'))))"

section \<open>Token refresh: \<^verbatim>\<open>refresh_access_token\<close>\<close>

definition no_refresh_token_msg :: string where
  "no_refresh_token_msg =
     ''No refresh token available - manual re-authentication required.'' @ nl @
     ''Run: python freshbooks.py AUTH_CODE''"

definition invalid_grant_msg :: string where
  "invalid_grant_msg =
     ''Refresh token is invalid (already used or revoked).'' @ nl @
     ''Manual re-authentication required.'' @ nl @
     ''This usually happens when:'' @ nl @
     ''1. The refresh token was used but new token wasn't saved'' @ nl @
     ''2. Multiple processes tried to refresh simultaneously'' @ nl @
     ''3. The token was manually revoked'' @ nl @ nl @
     ''To fix: Get a new auth code and run: python freshbooks.py AUTH_CODE''"

definition invalid_token_response_msg :: string where
  "invalid_token_response_msg = ''Invalid token response - missing access or refresh token''"

text \<open>
  Lines 153-165: what the method does with a response whose status is not 200, before it
  goes on to read the tokens.
\<close>

definition check_token_status :: "response \<Rightarrow> exn + unit" where
  "check_token_status r =
     (if status_code r \<noteq> 200 then
        (case response_json r of
           Inl e \<Rightarrow> Inl e
         | Inr error_data \<Rightarrow>
             (case as_dict error_data of
                Inl e \<Rightarrow> Inl e
              | Inr d \<Rightarrow>
                  if dget d ''error'' JNull = JStr ''invalid_grant''
                  then Inl (ValueError invalid_grant_msg)
                  else raise_for_status r))
      else Inr ())"

text \<open>Lines 167-181: the tokens are read from the response and saved.\<close>

definition save_token_response :: "builtins \<Rightarrow> client \<Rightarrow> world \<Rightarrow> response \<Rightarrow> json outcome" where
  "save_token_response ext c w r =
     (case response_json r of
        Inl e \<Rightarrow> (Inl e, c, w)
      | Inr token_data \<Rightarrow>
          (case as_dict token_data of
             Inl e \<Rightarrow> (Inl e, c, w)
           | Inr d \<Rightarrow>
               (let new_access = dget d ''access_token'' JNull;
                    new_refresh = dget d ''refresh_token'' JNull;
                    expires_in = dget d ''expires_in'' (JNum 43200)
                in if \<not> truthy new_access \<or> \<not> truthy new_refresh
                   then (Inl (ValueError invalid_token_response_msg), c, w)
                   else
                     (case atomic_save_tokens ext c w new_access new_refresh expires_in of
                        (Inl e, c', w') \<Rightarrow> (Inl e, c', w')
                      | (Inr _, c', w') \<Rightarrow> (Inr token_data, c', w')))))"

definition refresh_access_token :: "builtins \<Rightarrow> client \<Rightarrow> world \<Rightarrow> json outcome" where
  "refresh_access_token ext c w =
     (if \<not> str_truthy (refresh_token c) then (Inl (ValueError no_refresh_token_msg), c, w)
      else
        (let data = [(''grant_type'', Some ''refresh_token''),
                     (''refresh_token'', refresh_token c),
                     (''client_id'', client_id c),
                     (''client_secret'', client_secret c)]
         in case http_post (log Refreshing w) (token_url c) data of
              (Inl e, w1) \<Rightarrow> (Inl e, c, w1)
            | (Inr r, w1) \<Rightarrow>
                (case check_token_status r of
                   Inl e \<Rightarrow> (Inl e, c, w1)
                 | Inr _ \<Rightarrow> save_token_response ext c w1 r)))"

section \<open>Request execution: \<^verbatim>\<open>_make_request\<close>\<close>

text \<open>Lines 201-208: the proactive refresh, whose failure is printed and dropped.\<close>

definition precheck :: "builtins \<Rightarrow> client \<Rightarrow> world \<Rightarrow> client \<times> world" where
  "precheck ext c w =
     (case is_token_expired ext c w of
        (False, w0) \<Rightarrow> (c, w0)
      | (True, w0) \<Rightarrow>
          (case refresh_access_token ext c (log ExpiredRefreshing w0) of
             (Inl e, c', w1) \<Rightarrow> (c', log (RefreshFailed e) w1)
           | (Inr _, c', w1) \<Rightarrow> (c', w1)))"

text \<open>Lines 241-242: \<^verbatim>\<open>raise_for_status\<close>, then the decoded body.\<close>

definition finish_response :: "response \<Rightarrow> exn + json" where
  "finish_response r =
     (case raise_for_status r of Inl e \<Rightarrow> Inl e | Inr _ \<Rightarrow> response_json r)"

text \<open>The two \<^verbatim>\<open>except\<close> clauses of lines 234-239 print and re-raise.\<close>

definition log_reraised :: "exn \<Rightarrow> world \<Rightarrow> world" where
  "log_reraised e w =
     (if is_ValueError e then log (RefreshFailed e) w else log (UnexpectedRefreshError e) w)"

text \<open>Lines 210-242: the call, and on a 401 the refresh and the retry.\<close>

definition send_with_retry ::
  "builtins \<Rightarrow> client \<Rightarrow> world \<Rightarrow> string \<Rightarrow> string \<Rightarrow> json option \<Rightarrow> json option
     \<Rightarrow> json outcome" where
  "send_with_retry ext c w method url data params =
     (case http_request w method url (headers c) data params of
        (Inl e, w1) \<Rightarrow> (Inl e, c, w1)
      | (Inr r, w1) \<Rightarrow>
          if status_code r = 401 then
            (case refresh_access_token ext c (log Got401 w1) of
               (Inl e, c', w2) \<Rightarrow> (Inl e, c', log_reraised e w2)
             | (Inr _, c', w2) \<Rightarrow>
                 (case http_request w2 method url (headers c') data params of
                    (Inl e, w3) \<Rightarrow> (Inl e, c', log_reraised e w3)
                  | (Inr r', w3) \<Rightarrow> (finish_response r', c', w3)))
          else (finish_response r, c, w1))"

definition make_request ::
  "builtins \<Rightarrow> client \<Rightarrow> world \<Rightarrow> string \<Rightarrow> string \<Rightarrow> json option \<Rightarrow> json option
     \<Rightarrow> json outcome" where
  "make_request ext c w method endpoint data params =
     (let url = base_url c @ endpoint;
          (c1, w1) = precheck ext c w
      in send_with_retry ext c1 w1 method url data params)"

section \<open>Sending an invoice: \<^verbatim>\<open>send_invoice\<close>\<close>

definition safety_check_msg :: string where
  "safety_check_msg =
     ''SAFETY CHECK: Invoice cannot be sent without explicit human approval. '' @
     ''Set humanApproved=True only after receiving explicit permission from the user. '' @
     ''Example: client.send_invoice(invoice_id, humanApproved=True)''"

text \<open>
  The second argument is optional in the source: \<open>None\<close> is the call that leaves it out,
  and takes the default \<^verbatim>\<open>False\<close>.
\<close>

definition send_invoice ::
  "builtins \<Rightarrow> client \<Rightarrow> world \<Rightarrow> string \<Rightarrow> bool option \<Rightarrow> json outcome" where
  "send_invoice ext c w invoice_id humanApproved =
     (if \<not> (case humanApproved of None \<Rightarrow> False | Some b \<Rightarrow> b)
      then (Inl (ValueError safety_check_msg), c, w)
      else
        (let endpoint = ''/accounting/account/'' @ account_id c @ ''/invoices/invoices/'' @
                        invoice_id;
             data = JObj [(''invoice'', JObj [(''action_email'', JBool True)])]
         in make_request ext c w ''PUT'' endpoint (Some data) None))"

section \<open>Notions used in the statements\<close>

text \<open>
  The specification's words for the expiry test: the current time is within the safety
  margin when fewer than 300 seconds remain until the expiry (an expiry already past
  included). No time is within the margin of an expiry that is NaN.
\<close>

definition within_safety_margin :: "real \<Rightarrow> pyfloat \<Rightarrow> bool" where
  "within_safety_margin now expiry =
     (case expiry of
        Fin x \<Rightarrow> x - now < 300
      | NegInf \<Rightarrow> True
      | PosInf \<Rightarrow> False
      | NaN \<Rightarrow> False)"

text \<open>
  Calls are counted on the trace: the requests sent to the API, and the exchanges with the
  token endpoint.
\<close>

fun is_request :: "event \<Rightarrow> bool" where
  "is_request (Request m u h d p) = True"
| "is_request e = False"

fun is_post :: "event \<Rightarrow> bool" where
  "is_post (Post u d) = True"
| "is_post e = False"

definition count_requests :: "event list \<Rightarrow> nat" where
  "count_requests t = length (filter is_request t)"

definition count_posts :: "event list \<Rightarrow> nat" where
  "count_posts t = length (filter is_post t)"

text \<open>
  The form data of the refresh exchange, and the world right after the token endpoint has
  answered: the announcement and the call are on the trace, the answer is consumed.
\<close>

definition token_request :: "client \<Rightarrow> (string \<times> string option) list" where
  "token_request c = [(''grant_type'', Some ''refresh_token''), (''refresh_token'', refresh_token c),
                (''client_id'', client_id c), (''client_secret'', client_secret c)]"

definition after_post :: "client \<Rightarrow> world \<Rightarrow> (exn + response) list \<Rightarrow> world" where
  "after_post c w rest =
     w\<lparr>trace := trace w @ [Printed Refreshing, Post (token_url c) (token_request c)], net := rest\<rparr>"

text \<open>The endpoint and the body of the request that sends an invoice.\<close>

definition send_endpoint :: "client \<Rightarrow> string \<Rightarrow> string" where
  "send_endpoint c invoice_id =
     ''/accounting/account/'' @ account_id c @ ''/invoices/invoices/'' @ invoice_id"

definition send_body :: json where
  "send_body = JObj [(''invoice'', JObj [(''action_email'', JBool True)])]"

text \<open>
  The lifetime a token response gives, in the specification's words: \<^verbatim>\<open>expires_in\<close>, 43200
  seconds when the response has none. (A JSON boolean counts as 0 or 1 in Python's
  addition; any other value is no lifetime.)
\<close>

definition token_lifetime :: "(string \<times> json) list \<Rightarrow> real \<Rightarrow> bool" where
  "token_lifetime d n =
     (case map_of d ''expires_in'' of
        None \<Rightarrow> n = 43200
      | Some (JNum x) \<Rightarrow> n = x
      | Some (JBool b) \<Rightarrow> n = (if b then 1 else 0)
      | Some v \<Rightarrow> False)"

section \<open>Concrete scenarios\<close>

text \<open>
  A client whose access token expired long ago (expiry 1000, clock at 2000), the same
  client with an expiry far ahead, a store that holds its credentials, and worlds that
  differ in what the storage and the network will do.
\<close>

definition builtins0 :: builtins where
  "builtins0 = \<lparr>float_py = (\<lambda>s. if s = ''1000.0'' then Some (Fin 1000)
                           else if s = ''9000.0'' then Some (Fin 9000) else None),
           str_py = (\<lambda>x. ''later'')\<rparr>"

definition dotenv0 :: dotenv where
  "dotenv0 = [(''FRESHBOOKS_ACCESS_TOKEN'', ''A1''), (''FRESHBOOKS_REFRESH_TOKEN'', ''R1''),
             (''FRESHBOOKS_TOKEN_EXPIRES_AT'', ''1000.0'')]"

definition client0 :: client where
  "client0 = \<lparr>account_id = ''acct'', access_token = ''A1'', refresh_token = Some ''R1'',
          token_expires_at = Some ''1000.0'', client_id = Some ''id'',
          client_secret = Some ''secret'', token_url = ''https://auth/token'',
          env_path = ''.env'', base_url = ''https://api'',
          headers = [(''Authorization'', ''Bearer A1''), (''Content-Type'', ''application/json''),
                     (''Accept'', ''application/json'')]\<rparr>"

definition client_fresh :: client where
  "client_fresh = client0\<lparr>token_expires_at := Some ''9000.0''\<rparr>"

definition world0 :: world where
  "world0 = \<lparr>fs = [''.env'' \<mapsto> dotenv0], clock = (\<lambda>n. 2000), ticks = 0, write_plan = [],
          net = [], trace = []\<rparr>"

definition disk_full :: "write_outcome list" where
  "disk_full = [Written, Failed (OSError ''disk full'') (Some [(''FRESHBOOKS_ACCESS_TOKEN'', ''A2'')])]"

definition world_disk_full :: world where
  "world_disk_full = world0\<lparr>write_plan := disk_full\<rparr>"

definition world_no_store :: world where
  "world_no_store = world0\<lparr>fs := Map.empty, write_plan := disk_full\<rparr>"

definition world_restore_fails :: world where
  "world_restore_fails =
     world0\<lparr>write_plan := disk_full @ [Failed (OSError ''restore failed'') (Some [])]\<rparr>"

definition token_body :: json where
  "token_body = JObj [(''access_token'', JStr ''A2''), (''refresh_token'', JStr ''R2''),
                      (''expires_in'', JNum 3600)]"

definition ok_body :: json where
  "ok_body = JObj [(''ok'', JBool True)]"

definition world_401 :: world where
  "world_401 = world0\<lparr>net := [Inr \<lparr>status_code = 401, body = None\<rparr>,
                              Inr \<lparr>status_code = 200, body = Some token_body\<rparr>,
                              Inr \<lparr>status_code = 200, body = Some ok_body\<rparr>]\<rparr>"

definition world_offline_auth :: world where
  "world_offline_auth = world0\<lparr>net := [Inl ConnectionError,
                              Inr \<lparr>status_code = 200, body = Some ok_body\<rparr>]\<rparr>"

definition world_invalid_grant :: world where
  "world_invalid_grant =
     world0\<lparr>net := [Inr \<lparr>status_code = 400,
                            body = Some (JObj [(''error'', JStr ''invalid_grant'')])\<rparr>]\<rparr>"

definition world_no_refresh_in_body :: world where
  "world_no_refresh_in_body =
     world0\<lparr>net := [Inr \<lparr>status_code = 200,
                            body = Some (JObj [(''access_token'', JStr ''A2'')])\<rparr>]\<rparr>"

definition world_token_issued :: world where
  "world_token_issued = world0\<lparr>net := [Inr \<lparr>status_code = 200, body = Some token_body\<rparr>]\<rparr>"

definition world_multiple_choices :: world where
  "world_multiple_choices =
     world0\<lparr>net := [Inr \<lparr>status_code = 300, body = Some token_body\<rparr>]\<rparr>"

definition world_array_body :: world where
  "world_array_body = world0\<lparr>net := [Inr \<lparr>status_code = 200, body = Some (JArr [])\<rparr>]\<rparr>"

definition world_no_json_body :: world where
  "world_no_json_body = world0\<lparr>net := [Inr \<lparr>status_code = 200, body = None\<rparr>]\<rparr>"

lemmas base_defs = builtins0_def dotenv0_def client0_def world0_def

lemmas persist_defs = atomic_save_tokens_def timestamp_now_def save_backup_def write_tokens_def
  restore_backup_def log_def backup_path_def file_bindings_def dotenv_set_def Let_def

lemmas refresh_defs = refresh_access_token_def check_token_status_def
  save_token_response_def response_json_def raise_for_status_def dget_def http_post_def
  next_outcome_def

lemmas request_defs = is_token_expired_def http_request_def precheck_def
  finish_response_def log_reraised_def send_with_retry_def make_request_def

section \<open>What the primitives leave unchanged\<close>

lemma backup_path_neq [simp]: "backup_path c \<noteq> env_path c" "env_path c \<noteq> backup_path c"
  by (simp_all add: backup_path_def)

lemma log_simps [simp]:
  "trace (log m w) = trace w @ [Printed m]"
  "fs (log m w) = fs w" "net (log m w) = net w" "ticks (log m w) = ticks w"
  "clock (log m w) = clock w" "write_plan (log m w) = write_plan w"
  by (simp_all add: log_def)

lemma count_requests_simps [simp]:
  "count_requests [] = 0"
  "count_requests (xs @ ys) = count_requests xs + count_requests ys"
  "count_requests (e # xs) = (if is_request e then 1 else 0) + count_requests xs"
  unfolding count_requests_def by simp_all

lemma count_posts_simps [simp]:
  "count_posts [] = 0"
  "count_posts (xs @ ys) = count_posts xs + count_posts ys"
  "count_posts (e # xs) = (if is_post e then 1 else 0) + count_posts xs"
  unfolding count_posts_def by simp_all

lemma set_key_frame:
  assumes "set_key w p k v = (res, w')"
  shows "trace w' = trace w" and "net w' = net w" and "ticks w' = ticks w"
    and "clock w' = clock w" and "q \<noteq> p \<Longrightarrow> fs w' q = fs w q"
  using assms by (cases v; auto split: list.splits write_outcome.splits)+

lemma set_key_frame_all:
  assumes "set_key w p k v = (res, w')"
  shows "trace w' = trace w \<and> net w' = net w \<and> ticks w' = ticks w \<and> clock w' = clock w \<and>
         (\<forall>q. q \<noteq> p \<longrightarrow> fs w' q = fs w q)"
  using set_key_frame [OF assms] by simp

lemma set_key_Inr_str:
  assumes "set_key w p k v = (Inr u, w')"
  shows "\<exists>s. v = JStr s \<and> fs w' p = Some (dotenv_set k s (file_bindings w p))"
  using assms by (cases v; auto split: list.splits write_outcome.splits)

lemma map_of_replace:
  "map_of (map (\<lambda>(a, b). if a = k then (k, v) else (a, b)) kvs) k' =
     (if k' = k then (case map_of kvs k of None \<Rightarrow> None | Some u \<Rightarrow> Some v) else map_of kvs k')"
  by (induction kvs) (auto split: option.splits)

lemma map_of_dotenv_set:
  "map_of (dotenv_set k v kvs) k' = (if k' = k then Some v else map_of kvs k')"
proof (cases "k \<in> fst ` set kvs")
  case True
  then obtain u where "map_of kvs k = Some u"
    by (metis map_of_eq_None_iff not_None_eq)
  with True show ?thesis by (simp add: dotenv_set_def map_of_replace)
next
  case False
  then have "map_of kvs k = None" by (simp add: map_of_eq_None_iff)
  with False show ?thesis
    by (auto simp: dotenv_set_def map_add_def split: option.splits)
qed


lemma save_backup_simps [simp]:
  "trace (save_backup c w) = trace w" "net (save_backup c w) = net w"
  "ticks (save_backup c w) = ticks w" "clock (save_backup c w) = clock w"
  "write_plan (save_backup c w) = write_plan w"
  "fs (save_backup c w) (env_path c) = fs w (env_path c)"
  "fs w (env_path c) = Some content \<Longrightarrow> fs (save_backup c w) (backup_path c) = Some content"
  "q \<noteq> backup_path c \<Longrightarrow> fs (save_backup c w) q = fs w q"
  by (simp_all add: save_backup_def split: option.splits)

lemma http_post_frame:
  assumes "http_post w url data = (out, w')"
  shows "trace w' = trace w @ [Post url data]" and "fs w' = fs w"
  using assms by (auto simp: http_post_def next_outcome_def split: list.splits)

lemma http_request_frame:
  assumes "http_request w m url h d p = (out, w')"
  shows "trace w' = trace w @ [Request m url h d p]" and "fs w' = fs w"
  using assms by (auto simp: http_request_def next_outcome_def split: list.splits)

section \<open>Properties of \<^verbatim>\<open>atomic_save_tokens\<close>\<close>

lemma write_tokens_elim:
  assumes "write_tokens ext c w a r e = (res, c', w')"
  obtains
    (fail1) x w1 where
      "set_key w (env_path c) ''FRESHBOOKS_ACCESS_TOKEN'' a = (Inl x, w1)"
      "res = Inl x" "c' = c" "w' = w1"
  | (fail2) x w1 w2 where
      "set_key w (env_path c) ''FRESHBOOKS_ACCESS_TOKEN'' a = (Inr (), w1)"
      "set_key w1 (env_path c) ''FRESHBOOKS_REFRESH_TOKEN'' r = (Inl x, w2)"
      "res = Inl x" "c' = c" "w' = w2"
  | (fail3) x w1 w2 w3 where
      "set_key w (env_path c) ''FRESHBOOKS_ACCESS_TOKEN'' a = (Inr (), w1)"
      "set_key w1 (env_path c) ''FRESHBOOKS_REFRESH_TOKEN'' r = (Inr (), w2)"
      "set_key w2 (env_path c) ''FRESHBOOKS_TOKEN_EXPIRES_AT'' (JStr (str_py ext e)) = (Inl x, w3)"
      "res = Inl x" "c' = c" "w' = w3"
  | (saved) w1 w2 w3 where
      "set_key w (env_path c) ''FRESHBOOKS_ACCESS_TOKEN'' a = (Inr (), w1)"
      "set_key w1 (env_path c) ''FRESHBOOKS_REFRESH_TOKEN'' r = (Inr (), w2)"
      "set_key w2 (env_path c) ''FRESHBOOKS_TOKEN_EXPIRES_AT'' (JStr (str_py ext e)) = (Inr (), w3)"
      "res = Inr ()"
      "c' = c\<lparr>access_token := as_str a, refresh_token := Some (as_str r),
                 token_expires_at := Some (str_py ext e),
                 headers := dict_set ''Authorization'' (''Bearer '' @ as_str a) (headers c)\<rparr>"
      "w' = log TokensSaved (w3\<lparr>fs := (fs w3)(backup_path c := None)\<rparr>)"
  using assms unfolding write_tokens_def
  by (auto simp del: set_key.simps split: prod.splits sum.splits)

lemma write_tokens_frame:
  assumes "write_tokens ext c w a r e = (res, c', w')"
  shows "net w' = net w" and "ticks w' = ticks w" and "clock w' = clock w"
    and "q \<noteq> env_path c \<Longrightarrow> q \<noteq> backup_path c \<Longrightarrow> fs w' q = fs w q"
  using assms
  by (cases rule: write_tokens_elim; auto simp del: set_key.simps dest!: set_key_frame_all)+

lemma write_tokens_Inl:
  assumes "write_tokens ext c w a r e = (Inl x, c', w')"
  shows "c' = c" and "trace w' = trace w" and "fs w' (backup_path c) = fs w (backup_path c)"
  using assms
  by (cases rule: write_tokens_elim; auto simp del: set_key.simps dest!: set_key_frame_all)+

lemma write_tokens_Inr:
  assumes "write_tokens ext c w a r e = (Inr u, c', w')"
  shows "fs w' (backup_path c) = None" and "trace w' = trace w @ [Printed TokensSaved]"
    and "c' = c\<lparr>access_token := as_str a, refresh_token := Some (as_str r),
                 token_expires_at := Some (str_py ext e),
                 headers := dict_set ''Authorization'' (''Bearer '' @ as_str a) (headers c)\<rparr>"
  using assms
  by (cases rule: write_tokens_elim; auto simp del: set_key.simps dest!: set_key_frame_all)+

lemma write_tokens_first_failure:
  assumes "write_plan w = replicate j Written @ Failed x residue # rest" and "j < 3"
  shows "\<exists>w1. write_tokens ext c w (JStr a) (JStr r) t = (Inl x, c, w1) \<and> write_plan w1 = rest \<and>
              fs w1 (backup_path c) = fs w (backup_path c)"
proof -
  from assms(2) consider "j = 0" | "j = 1" | "j = 2" by linarith
  then show ?thesis
  proof cases
    case 1
    with assms(1) show ?thesis by (simp add: write_tokens_def)
  next
    case 2
    with assms(1) show ?thesis by (simp add: write_tokens_def)
  next
    case 3
    with assms(1) show ?thesis by (simp add: write_tokens_def numeral_2_eq_2)
  qed
qed

lemma write_tokens_saved_store:
  assumes "write_tokens ext c w access refresh t = (Inr u, c', w')"
  shows "\<exists>a r kvs. access = JStr a \<and> refresh = JStr r \<and>
           fs w' (env_path c) = Some kvs \<and>
           map_of kvs ''FRESHBOOKS_ACCESS_TOKEN'' = Some a \<and>
           map_of kvs ''FRESHBOOKS_REFRESH_TOKEN'' = Some r \<and>
           map_of kvs ''FRESHBOOKS_TOKEN_EXPIRES_AT'' = Some (str_py ext t)"
  using assms
proof (cases rule: write_tokens_elim)
  case (saved w1 w2 w3)
  from set_key_Inr_str [OF saved(1)] obtain a where
    a: "access = JStr a"
       "fs w1 (env_path c) = Some (dotenv_set ''FRESHBOOKS_ACCESS_TOKEN'' a (file_bindings w (env_path c)))"
    by blast
  from set_key_Inr_str [OF saved(2)] obtain r where
    r: "refresh = JStr r"
       "fs w2 (env_path c) = Some (dotenv_set ''FRESHBOOKS_REFRESH_TOKEN'' r (file_bindings w1 (env_path c)))"
    by blast
  from set_key_Inr_str [OF saved(3)] have
    e: "fs w3 (env_path c) = Some (dotenv_set ''FRESHBOOKS_TOKEN_EXPIRES_AT'' (str_py ext t) (file_bindings w2 (env_path c)))"
    by simp
  have "fs w' (env_path c) = fs w3 (env_path c)"
    using saved(6) by simp
  with a r e show ?thesis
    by (simp add: file_bindings_def map_of_dotenv_set)
qed simp_all

lemma restore_backup_ok:
  assumes "fs w (backup_path c) = Some content"
    and "write_plan w = [] \<or> (\<exists>plan. write_plan w = Written # plan)"
  shows "\<exists>w'. restore_backup c w = (Inr (), w') \<and> fs w' (env_path c) = Some content"
  using assms by (auto simp: restore_backup_def)

lemma atomic_save_elim:
  assumes "atomic_save_tokens ext c w a r e = (res, c', w')"
  obtains
    (bad_expiry) x where
      "add_seconds (clock w (ticks w)) e = Inl x" "res = Inl x" "c' = c"
      "w' = w\<lparr>ticks := Suc (ticks w)\<rparr>"
  | (restored) t x w1 where
      "add_seconds (clock w (ticks w)) e = Inr t"
      "write_tokens ext c (save_backup c (w\<lparr>ticks := Suc (ticks w)\<rparr>)) a r t = (Inl x, c, w1)"
      "restore_backup c (log (ErrorSaving x) w1) = (Inr (), w')"
      "res = Inl x" "c' = c"
  | (not_restored) t x y w1 where
      "add_seconds (clock w (ticks w)) e = Inr t"
      "write_tokens ext c (save_backup c (w\<lparr>ticks := Suc (ticks w)\<rparr>)) a r t = (Inl x, c, w1)"
      "restore_backup c (log (ErrorSaving x) w1) = (Inl y, w')"
      "res = Inl y" "c' = c"
  | (saved) t where
      "add_seconds (clock w (ticks w)) e = Inr t"
      "write_tokens ext c (save_backup c (w\<lparr>ticks := Suc (ticks w)\<rparr>)) a r t = (Inr (), c', w')"
      "res = Inr ()"
proof (cases "add_seconds (clock w (ticks w)) e")
  case (Inl x)
  with assms have "res = Inl x" "c' = c" "w' = w\<lparr>ticks := Suc (ticks w)\<rparr>"
    by (simp_all add: atomic_save_tokens_def timestamp_now_def)
  with Inl show ?thesis by (intro bad_expiry)
next
  case numeric: (Inr t)
  let ?W = "save_backup c (w\<lparr>ticks := Suc (ticks w)\<rparr>)"
  obtain r1 c1 w1 where wt: "write_tokens ext c ?W a r t = (r1, c1, w1)"
    by (cases "write_tokens ext c ?W a r t") auto
  show ?thesis
  proof (cases r1)
    case ok: (Inr u)
    with assms numeric wt have "res = Inr ()" "c' = c1" "w' = w1"
      by (simp_all add: atomic_save_tokens_def timestamp_now_def)
    with numeric wt ok show ?thesis by (intro saved) simp_all
  next
    case failed: (Inl x)
    from write_tokens_Inl(1) [OF wt [unfolded failed]] have c1: "c1 = c" .
    obtain r2 w2 where rb: "restore_backup c (log (ErrorSaving x) w1) = (r2, w2)"
      by (cases "restore_backup c (log (ErrorSaving x) w1)") auto
    show ?thesis
    proof (cases r2)
      case (Inl y)
      with assms numeric wt failed rb have "res = Inl y" "c' = c1" "w' = w2"
        by (simp_all add: atomic_save_tokens_def timestamp_now_def)
      with numeric wt failed rb Inl c1 show ?thesis by (intro not_restored) simp_all
    next
      case (Inr v)
      with assms numeric wt failed rb have "res = Inl x" "c' = c1" "w' = w2"
        by (simp_all add: atomic_save_tokens_def timestamp_now_def)
      with numeric wt failed rb Inr c1 show ?thesis by (intro restored) simp_all
    qed
  qed
qed

lemma atomic_save_Inl_client:
  assumes "atomic_save_tokens ext c w a r e = (Inl x, c', w')"
  shows "c' = c"
  using assms by (cases rule: atomic_save_elim) simp_all

lemma atomic_save_Inr_backup:
  assumes "atomic_save_tokens ext c w a r e = (Inr u, c', w')"
  shows "fs w' (backup_path c) = None"
  using assms by (cases rule: atomic_save_elim) (simp_all add: write_tokens_Inr(1))

lemma atomic_save_Inr_state:
  assumes "atomic_save_tokens ext c w access refresh expires_in = (Inr u, c', w')"
  shows "\<exists>a r t kvs. access = JStr a \<and> refresh = JStr r \<and>
           add_seconds (clock w (ticks w)) expires_in = Inr t \<and>
           fs w' (env_path c) = Some kvs \<and>
           map_of kvs ''FRESHBOOKS_ACCESS_TOKEN'' = Some a \<and>
           map_of kvs ''FRESHBOOKS_REFRESH_TOKEN'' = Some r \<and>
           map_of kvs ''FRESHBOOKS_TOKEN_EXPIRES_AT'' = Some (str_py ext t) \<and>
           c' = c\<lparr>access_token := a, refresh_token := Some r,
                  token_expires_at := Some (str_py ext t),
                  headers := dict_set ''Authorization'' (''Bearer '' @ a) (headers c)\<rparr>"
  using assms
proof (cases rule: atomic_save_elim)
  case (saved t)
  from write_tokens_saved_store [OF saved(2)] write_tokens_Inr(3) [OF saved(2)] saved(1)
  show ?thesis by auto
qed simp_all

lemma restore_backup_trace:
  assumes "restore_backup c w = (res, w')"
  shows "\<exists>evs. trace w' = trace w @ evs \<and> count_requests evs = 0 \<and> count_posts evs = 0"
  using assms
  by (auto simp: restore_backup_def split: option.splits list.splits write_outcome.splits)

lemma atomic_save_trace:
  assumes "atomic_save_tokens ext c w a r e = (res, c', w')"
  shows "\<exists>evs. trace w' = trace w @ evs \<and> count_requests evs = 0 \<and> count_posts evs = 0"
  using assms
proof (cases rule: atomic_save_elim)
  case (bad_expiry x)
  then show ?thesis by simp
next
  case (restored t x w1)
  from write_tokens_Inl(2) [OF restored(2)]
  have "trace (log (ErrorSaving x) w1) = trace w @ [Printed (ErrorSaving x)]"
    by simp
  moreover from restore_backup_trace [OF restored(3)] obtain evs where
    "trace w' = trace (log (ErrorSaving x) w1) @ evs" "count_requests evs = 0" "count_posts evs = 0"
    by auto
  ultimately show ?thesis by simp
next
  case (not_restored t x y w1)
  from write_tokens_Inl(2) [OF not_restored(2)]
  have "trace (log (ErrorSaving x) w1) = trace w @ [Printed (ErrorSaving x)]"
    by simp
  moreover from restore_backup_trace [OF not_restored(3)] obtain evs where
    "trace w' = trace (log (ErrorSaving x) w1) @ evs" "count_requests evs = 0" "count_posts evs = 0"
    by auto
  ultimately show ?thesis by simp
next
  case (saved t)
  from write_tokens_Inr(2) [OF saved(2)] show ?thesis by simp
qed

text \<open>
  Claim C1, as amended. The claim as stated fails in two ways: when there is no store
  before the call, since the backup is taken only if the file exists (line 79); and when
  the write by which the handler restores the store fails in its turn. Let the store exist
  before the call, let one of the three writes be the first to fail, and let the restoring
  write go through: then the call raises the error of the failed write and leaves the store
  with the content it had before the call. A call that returns leaves no backup behind.
\<close>

theorem atomic_save_tokens_rollback:
  assumes "fs w (env_path c) = Some content"
    and "atomic_save_tokens ext c w access refresh expires_in = (res, c', w')"
  shows "(\<forall>a r n j x residue rest.
            access = JStr a \<and> refresh = JStr r \<and> expires_in = JNum n \<and>
            write_plan w = replicate j Written @ Failed x residue # rest \<and> j < 3 \<and>
            (rest = [] \<or> (\<exists>later. rest = Written # later))
            \<longrightarrow> res = Inl x \<and> fs w' (env_path c) = Some content) \<and>
         (\<forall>u. res = Inr u \<longrightarrow> fs w' (backup_path c) = None)"
proof (intro conjI allI impI)
  fix a r n j x residue rest
  assume h: "access = JStr a \<and> refresh = JStr r \<and> expires_in = JNum n \<and>
            write_plan w = replicate j Written @ Failed x residue # rest \<and> j < 3 \<and>
            (rest = [] \<or> (\<exists>later. rest = Written # later))"
  let ?W = "save_backup c (w\<lparr>ticks := Suc (ticks w)\<rparr>)"
  let ?t = "clock w (ticks w) + n"
  from h have "write_plan ?W = replicate j Written @ Failed x residue # rest" and "j < 3"
    by simp_all
  from write_tokens_first_failure [OF this] obtain w1 where
    w1: "write_tokens ext c ?W (JStr a) (JStr r) ?t = (Inl x, c, w1)" "write_plan w1 = rest"
        "fs w1 (backup_path c) = fs ?W (backup_path c)"
    by blast
  from assms(1) w1(3) have "fs (log (ErrorSaving x) w1) (backup_path c) = Some content"
    by simp
  moreover from h w1(2)
  have "write_plan (log (ErrorSaving x) w1) = [] \<or>
        (\<exists>plan. write_plan (log (ErrorSaving x) w1) = Written # plan)"
    by auto
  ultimately obtain w2 where
    w2: "restore_backup c (log (ErrorSaving x) w1) = (Inr (), w2)" "fs w2 (env_path c) = Some content"
    using restore_backup_ok by blast
  from h w1(1) w2(1) have "atomic_save_tokens ext c w access refresh expires_in = (Inl x, c, w2)"
    by (simp add: atomic_save_tokens_def timestamp_now_def)
  with assms(2) w2(2) show "res = Inl x" and "fs w' (env_path c) = Some content"
    by simp_all
next
  fix u
  assume "res = Inr u"
  with assms(2) atomic_save_Inr_backup show "fs w' (backup_path c) = None"
    by simp
qed

text \<open>
  The second write fails on a full disk and leaves a truncated file: the store is restored
  and the error of the write reaches the caller.
\<close>

theorem atomic_save_tokens_rollback_witness:
  "fs world_disk_full (env_path client0) = Some dotenv0 \<and>
   fst (atomic_save_tokens builtins0 client0 world_disk_full (JStr ''A2'') (JStr ''R2'') (JNum 43200))
     = Inl (OSError ''disk full'') \<and>
   fs (snd (snd (atomic_save_tokens builtins0 client0 world_disk_full
                   (JStr ''A2'') (JStr ''R2'') (JNum 43200)))) (env_path client0) = Some dotenv0"
proof -
  let ?R = "atomic_save_tokens builtins0 client0 world_disk_full (JStr ''A2'') (JStr ''R2'') (JNum 43200)"
  have store: "fs world_disk_full (env_path client0) = Some dotenv0"
    by (simp add: base_defs world_disk_full_def disk_full_def)
  have call: "?R = (fst ?R, fst (snd ?R), snd (snd ?R))" by simp
  note th = atomic_save_tokens_rollback [OF store call]
  have plan: "JStr ''A2'' = JStr ''A2'' \<and> JStr ''R2'' = JStr ''R2'' \<and> JNum 43200 = JNum 43200 \<and>
      write_plan world_disk_full =
        replicate 1 Written @
          Failed (OSError ''disk full'') (Some [(''FRESHBOOKS_ACCESS_TOKEN'', ''A2'')]) # [] \<and>
      (1::nat) < 3 \<and> ([] = ([]::write_outcome list) \<or> (\<exists>later. [] = Written # later))"
    by (simp add: base_defs world_disk_full_def disk_full_def)
  from th plan have "fst ?R = Inl (OSError ''disk full'') \<and>
                     fs (snd (snd ?R)) (env_path client0) = Some dotenv0"
    by blast
  with store show ?thesis by simp
qed

text \<open>
  With no store before the call and the second write failing, the call raises, and the
  file that the first write created is still there afterwards. With a store, the second
  write failing and the restoring write failing in its turn, the call raises the error of
  the restore and the store is left truncated.
\<close>

theorem atomic_save_tokens_rollback_counterexample:
  "fs world_no_store (env_path client0) = None \<and>
   fst (atomic_save_tokens builtins0 client0 world_no_store (JStr ''A2'') (JStr ''R2'') (JNum 43200))
     = Inl (OSError ''disk full'') \<and>
   fs (snd (snd (atomic_save_tokens builtins0 client0 world_no_store
                   (JStr ''A2'') (JStr ''R2'') (JNum 43200)))) (env_path client0)
     = Some [(''FRESHBOOKS_ACCESS_TOKEN'', ''A2'')] \<and>
   fs (snd (snd (atomic_save_tokens builtins0 client0 world_no_store
                   (JStr ''A2'') (JStr ''R2'') (JNum 43200)))) (env_path client0)
     \<noteq> fs world_no_store (env_path client0) \<and>
   fs world_restore_fails (env_path client0) = Some dotenv0 \<and>
   fst (atomic_save_tokens builtins0 client0 world_restore_fails
          (JStr ''A2'') (JStr ''R2'') (JNum 43200))
     = Inl (OSError ''restore failed'') \<and>
   fs (snd (snd (atomic_save_tokens builtins0 client0 world_restore_fails
                   (JStr ''A2'') (JStr ''R2'') (JNum 43200)))) (env_path client0)
     = Some [] \<and>
   fs (snd (snd (atomic_save_tokens builtins0 client0 world_restore_fails
                   (JStr ''A2'') (JStr ''R2'') (JNum 43200)))) (env_path client0)
     \<noteq> fs world_restore_fails (env_path client0)"
  by (simp add: base_defs world_no_store_def disk_full_def persist_defs world_restore_fails_def)

text \<open>
  Claim C2. A call of \<^verbatim>\<open>atomic_save_tokens\<close> that raises leaves the in-memory state (access
  token, refresh token, expiry, headers) exactly as it was. A call that returns has updated
  it to the new values, and by then the store binds the three keys to the same values: the
  in-memory state changes only after all three writes have gone through.
\<close>

theorem in_memory_updated_after_persist:
  assumes "atomic_save_tokens ext c w access refresh expires_in = (res, c', w')"
  shows "case res of
           Inl x \<Rightarrow> c' = c
         | Inr u \<Rightarrow>
             (\<exists>a r t kvs. access = JStr a \<and> refresh = JStr r \<and>
                add_seconds (clock w (ticks w)) expires_in = Inr t \<and>
                fs w' (env_path c) = Some kvs \<and>
                map_of kvs ''FRESHBOOKS_ACCESS_TOKEN'' = Some a \<and>
                map_of kvs ''FRESHBOOKS_REFRESH_TOKEN'' = Some r \<and>
                map_of kvs ''FRESHBOOKS_TOKEN_EXPIRES_AT'' = Some (str_py ext t) \<and>
                c' = c\<lparr>access_token := a, refresh_token := Some r,
                       token_expires_at := Some (str_py ext t),
                       headers := dict_set ''Authorization'' (''Bearer '' @ a) (headers c)\<rparr>)"
proof (cases res)
  case (Inl x)
  with assms atomic_save_Inl_client show ?thesis by simp
next
  case (Inr u)
  with assms atomic_save_Inr_state show ?thesis by simp
qed

theorem in_memory_updated_after_persist_witness:
  "fst (atomic_save_tokens builtins0 client0 world0 (JStr ''A2'') (JStr ''R2'') (JNum 43200)) = Inr () \<and>
   fst (snd (atomic_save_tokens builtins0 client0 world0 (JStr ''A2'') (JStr ''R2'') (JNum 43200)))
     = client0\<lparr>access_token := ''A2'', refresh_token := Some ''R2'',
               token_expires_at := Some (str_py builtins0 45200),
               headers := dict_set ''Authorization'' ''Bearer A2'' (headers client0)\<rparr> \<and>
   fst (atomic_save_tokens builtins0 client0 world_disk_full (JStr ''A2'') (JStr ''R2'') (JNum 43200))
     = Inl (OSError ''disk full'') \<and>
   fst (snd (atomic_save_tokens builtins0 client0 world_disk_full
               (JStr ''A2'') (JStr ''R2'') (JNum 43200))) = client0"
proof -
  let ?R = "atomic_save_tokens builtins0 client0 world0 (JStr ''A2'') (JStr ''R2'') (JNum 43200)"
  let ?F = "atomic_save_tokens builtins0 client0 world_disk_full (JStr ''A2'') (JStr ''R2'') (JNum 43200)"
  have ok: "fst ?R = Inr ()" by (simp add: base_defs world_disk_full_def disk_full_def persist_defs)
  have failed: "fst ?F = Inl (OSError ''disk full'')" by (simp add: base_defs world_disk_full_def disk_full_def persist_defs)
  have now: "add_seconds (clock world0 (ticks world0)) (JNum 43200) = Inr 45200"
    by (simp add: base_defs world_disk_full_def disk_full_def)
  have "?R = (fst ?R, fst (snd ?R), snd (snd ?R))" by simp
  from in_memory_updated_after_persist [OF this] ok now
  have c1: "fst (snd ?R) = client0\<lparr>access_token := ''A2'', refresh_token := Some ''R2'',
               token_expires_at := Some (str_py builtins0 45200),
               headers := dict_set ''Authorization'' ''Bearer A2'' (headers client0)\<rparr>"
    by auto
  have "?F = (fst ?F, fst (snd ?F), snd (snd ?F))" by simp
  from in_memory_updated_after_persist [OF this] failed
  have c2: "fst (snd ?F) = client0" by simp
  from ok c1 failed c2 show ?thesis by (intro conjI)
qed

section \<open>Properties of \<^verbatim>\<open>is_token_expired\<close>\<close>

lemma gt_sub_margin: "real_gt_float now (float_sub x 300) = within_safety_margin now x"
  by (cases x) (auto simp: within_safety_margin_def)

lemma is_token_expired_frame:
  assumes "is_token_expired ext c w = (b, w0)"
  shows "trace w0 = trace w" and "fs w0 = fs w" and "net w0 = net w"
  using assms
  by (auto simp: is_token_expired_def timestamp_now_def split: option.splits if_splits)

text \<open>
  Claim C4. \<^verbatim>\<open>is_token_expired\<close> answers true exactly when the stored expiry is absent
  (\<^verbatim>\<open>None\<close> or the empty string), or \<^verbatim>\<open>float()\<close> rejects it, or the current time is
  within the 300-second safety margin of the expiry it denotes; it answers false otherwise.
\<close>

theorem is_token_expired_iff:
  "fst (is_token_expired ext c w) \<longleftrightarrow>
     (token_expires_at c = None \<or> token_expires_at c = Some [] \<or>
      (\<exists>s. token_expires_at c = Some s \<and>
         (float_py ext s = None \<or>
          (\<exists>x. float_py ext s = Some x \<and> within_safety_margin (clock w (ticks w)) x))))"
  by (auto simp: is_token_expired_def timestamp_now_def gt_sub_margin
           split: option.splits)

theorem is_token_expired_iff_witness:
  "fst (is_token_expired builtins0 client0 world0) \<and>
   \<not> fst (is_token_expired builtins0 client_fresh world0) \<and>
   fst (is_token_expired builtins0 (client0\<lparr>token_expires_at := None\<rparr>) world0) \<and>
   fst (is_token_expired builtins0 (client0\<lparr>token_expires_at := Some ''soon''\<rparr>) world0)"
proof -
  have a: "within_safety_margin (clock world0 (ticks world0)) (Fin 1000)"
    and b: "\<not> within_safety_margin (clock world0 (ticks world0)) (Fin 9000)"
    by (simp_all add: within_safety_margin_def base_defs client_fresh_def)
  have "fst (is_token_expired builtins0 client0 world0)"
    using a by (simp add: is_token_expired_iff) (simp add: base_defs client_fresh_def)
  moreover have "\<not> fst (is_token_expired builtins0 client_fresh world0)"
    using b by (simp add: is_token_expired_iff) (simp add: base_defs client_fresh_def)
  moreover have "fst (is_token_expired builtins0 (client0\<lparr>token_expires_at := None\<rparr>) world0)"
    by (simp add: is_token_expired_iff)
  moreover have "fst (is_token_expired builtins0 (client0\<lparr>token_expires_at := Some ''soon''\<rparr>) world0)"
    by (simp add: is_token_expired_iff) (simp add: base_defs client_fresh_def)
  ultimately show ?thesis by (intro conjI)
qed

section \<open>Properties of \<^verbatim>\<open>refresh_access_token\<close>\<close>

lemma save_token_response_trace:
  assumes "save_token_response ext c w r = (res, c', w')"
  shows "\<exists>evs. trace w' = trace w @ evs \<and> count_requests evs = 0 \<and> count_posts evs = 0"
  using assms unfolding save_token_response_def
  by (auto simp: Let_def split: sum.splits prod.splits if_splits dest: atomic_save_trace)

lemma save_token_response_Inl:
  assumes "save_token_response ext c w r = (Inl x, c', w')"
  shows "c' = c"
  using assms unfolding save_token_response_def
  by (auto simp: Let_def split: sum.splits prod.splits if_splits dest: atomic_save_Inl_client)

lemma refresh_Inl_client:
  assumes "refresh_access_token ext c w = (Inl x, c', w')"
  shows "c' = c"
  using assms unfolding refresh_access_token_def
  by (auto simp: Let_def split: sum.splits prod.splits if_splits dest: save_token_response_Inl)

lemma refresh_trace:
  assumes "refresh_access_token ext c w = (res, c', w')"
  shows "\<exists>evs. trace w' = trace w @ evs \<and> count_requests evs = 0 \<and> count_posts evs \<le> 1 \<and>
           (str_truthy (refresh_token c) \<longrightarrow> count_posts evs = 1)"
proof (cases "str_truthy (refresh_token c)")
  case False
  with assms show ?thesis by (simp add: refresh_access_token_def)
next
  case True
  let ?data = "[(''grant_type'', Some ''refresh_token''), (''refresh_token'', refresh_token c),
                (''client_id'', client_id c), (''client_secret'', client_secret c)]"
  obtain out w1 where post: "http_post (log Refreshing w) (token_url c) ?data = (out, w1)"
    by (cases "http_post (log Refreshing w) (token_url c) ?data") auto
  from http_post_frame(1) [OF post]
  have t1: "trace w1 = trace w @ [Printed Refreshing, Post (token_url c) ?data]" by simp
  have "\<exists>evs. trace w' = trace w1 @ evs \<and> count_requests evs = 0 \<and> count_posts evs = 0"
    using assms True post unfolding refresh_access_token_def
    by (auto simp: Let_def split: sum.splits dest: save_token_response_trace)
  then obtain evs where "trace w' = trace w1 @ evs" "count_requests evs = 0" "count_posts evs = 0"
    by blast
  with t1 True show ?thesis by simp
qed


lemma refresh_responded:
  assumes "str_truthy (refresh_token c)" and "net w = Inr r # rest"
  shows "refresh_access_token ext c w =
           (case check_token_status r of
              Inl e \<Rightarrow> (Inl e, c, after_post c w rest)
            | Inr u \<Rightarrow> save_token_response ext c (after_post c w rest) r)"
  using assms
  by (simp add: refresh_access_token_def http_post_def next_outcome_def log_def after_post_def Let_def
        token_request_def split: sum.splits)

lemma add_seconds_lifetime:
  assumes "add_seconds now (dget d ''expires_in'' (JNum 43200)) = Inr t"
  shows "\<exists>n. token_lifetime d n \<and> t = now + n"
proof (cases "map_of d ''expires_in''")
  case None
  with assms show ?thesis by (simp add: dget_def token_lifetime_def)
next
  case (Some v)
  with assms show ?thesis by (cases v) (auto simp: dget_def token_lifetime_def)
qed

lemma dget_JStr:
  assumes "dget d k JNull = JStr a"
  shows "map_of d k = Some (JStr a)"
  using assms by (auto simp: dget_def split: option.splits)

text \<open>
  Claim C7. Without a refresh token (\<^verbatim>\<open>None\<close> or empty) \<^verbatim>\<open>refresh_access_token\<close> raises the
  "no refresh token" error and leaves the object and the whole world as they were: no
  call to the token endpoint is made, nothing is printed, nothing is written.
\<close>

theorem refresh_without_token:
  assumes "\<not> str_truthy (refresh_token c)"
  shows "refresh_access_token ext c w = (Inl (ValueError no_refresh_token_msg), c, w)"
  using assms by (simp add: refresh_access_token_def)

theorem refresh_without_token_witness:
  "\<not> str_truthy (refresh_token (client0\<lparr>refresh_token := None\<rparr>)) \<and>
   refresh_access_token builtins0 (client0\<lparr>refresh_token := None\<rparr>) world_token_issued =
     (Inl (ValueError no_refresh_token_msg), client0\<lparr>refresh_token := None\<rparr>, world_token_issued)"
proof -
  have h: "\<not> str_truthy (refresh_token (client0\<lparr>refresh_token := None\<rparr>))" by simp
  from refresh_without_token [OF h] h show ?thesis by simp
qed

text \<open>
  Claim C5. When a refresh token is held and the token endpoint answers with a status
  other than 200 and a JSON object whose \<^verbatim>\<open>error\<close> is \<^verbatim>\<open>invalid_grant\<close>, the refresh raises
  the "refresh token is invalid" error, whose message says that manual re-authentication
  is required, and no file is changed.
\<close>

theorem invalid_grant_refresh:
  assumes "str_truthy (refresh_token c)"
    and "net w = Inr r # rest"
    and "status_code r \<noteq> 200"
    and "body r = Some (JObj d)"
    and "map_of d ''error'' = Some (JStr ''invalid_grant'')"
  shows "(\<exists>w'. refresh_access_token ext c w = (Inl (ValueError invalid_grant_msg), c, w') \<and>
               fs w' = fs w) \<and>
         (\<exists>pre post. invalid_grant_msg = pre @ ''Manual re-authentication required'' @ post)"
proof
  from assms(3-5) have "check_token_status r = Inl (ValueError invalid_grant_msg)"
    by (simp add: check_token_status_def response_json_def dget_def)
  with refresh_responded [OF assms(1,2)]
  show "\<exists>w'. refresh_access_token ext c w = (Inl (ValueError invalid_grant_msg), c, w') \<and>
             fs w' = fs w"
    by (simp add: after_post_def)
next
  have "invalid_grant_msg =
          (''Refresh token is invalid (already used or revoked).'' @ nl) @
          ''Manual re-authentication required'' @
          (''.'' @ nl @
           ''This usually happens when:'' @ nl @
           ''1. The refresh token was used but new token wasn't saved'' @ nl @
           ''2. Multiple processes tried to refresh simultaneously'' @ nl @
           ''3. The token was manually revoked'' @ nl @ nl @
           ''To fix: Get a new auth code and run: python freshbooks.py AUTH_CODE'')"
    by (simp add: invalid_grant_msg_def)
  then show "\<exists>pre post. invalid_grant_msg = pre @ ''Manual re-authentication required'' @ post"
    by blast
qed

theorem invalid_grant_refresh_witness:
  "str_truthy (refresh_token client0) \<and>
   fst (refresh_access_token builtins0 client0 world_invalid_grant)
     = Inl (ValueError invalid_grant_msg) \<and>
   fst (snd (refresh_access_token builtins0 client0 world_invalid_grant)) = client0 \<and>
   fs (snd (snd (refresh_access_token builtins0 client0 world_invalid_grant)))
     = fs world_invalid_grant"
proof -
  let ?r = "\<lparr>status_code = 400, body = Some (JObj [(''error'', JStr ''invalid_grant'')])\<rparr>"
  have h1: "str_truthy (refresh_token client0)" by (simp add: base_defs world_invalid_grant_def)
  have h2: "net world_invalid_grant = Inr ?r # []" by (simp add: base_defs world_invalid_grant_def)
  have h3: "status_code ?r \<noteq> 200" by simp
  have h4: "body ?r = Some (JObj [(''error'', JStr ''invalid_grant'')])" by simp
  have h5: "map_of [(''error'', JStr ''invalid_grant'')] ''error'' = Some (JStr ''invalid_grant'')"
    by simp
  from invalid_grant_refresh [OF h1 h2 h3 h4 h5, of builtins0] h1 show ?thesis by auto
qed

text \<open>
  Claim C6, as amended to the responses whose body is a JSON object. When a refresh token
  is held and the token endpoint answers with status 200 and a JSON object: if the object
  lacks a new access token or a new refresh token (the key is absent, or its value is null
  or empty), the refresh raises the "invalid token response" error and no file is changed;
  if it has both, the refresh is the call of \<^verbatim>\<open>atomic_save_tokens\<close> on the new pair and the
  lifetime (43200 seconds when the object gives none). Whenever the refresh returns, it
  returns the object, and both the store and the in-memory state hold the new pair and the
  expiry, which is the clock reading plus the lifetime.
\<close>

theorem malformed_token_response:
  assumes "str_truthy (refresh_token c)"
    and "net w = Inr r # rest"
    and "status_code r = 200"
    and "body r = Some (JObj d)"
  shows "(\<not> truthy (dget d ''access_token'' JNull) \<or> \<not> truthy (dget d ''refresh_token'' JNull) \<longrightarrow>
            (\<exists>w'. refresh_access_token ext c w =
                     (Inl (ValueError invalid_token_response_msg), c, w') \<and> fs w' = fs w)) \<and>
         (truthy (dget d ''access_token'' JNull) \<and> truthy (dget d ''refresh_token'' JNull) \<longrightarrow>
            refresh_access_token ext c w =
              (case atomic_save_tokens ext c (after_post c w rest)
                      (dget d ''access_token'' JNull) (dget d ''refresh_token'' JNull)
                      (dget d ''expires_in'' (JNum 43200)) of
                 (Inl e, c', w') \<Rightarrow> (Inl e, c', w')
               | (Inr u, c', w') \<Rightarrow> (Inr (JObj d), c', w'))) \<and>
         (\<forall>td c' w'. refresh_access_token ext c w = (Inr td, c', w') \<longrightarrow>
            td = JObj d \<and>
            (\<exists>a r n kvs.
               map_of d ''access_token'' = Some (JStr a) \<and>
               map_of d ''refresh_token'' = Some (JStr r) \<and>
               token_lifetime d n \<and>
               fs w' (env_path c) = Some kvs \<and>
               map_of kvs ''FRESHBOOKS_ACCESS_TOKEN'' = Some a \<and>
               map_of kvs ''FRESHBOOKS_REFRESH_TOKEN'' = Some r \<and>
               map_of kvs ''FRESHBOOKS_TOKEN_EXPIRES_AT'' = Some (str_py ext (clock w (ticks w) + n)) \<and>
               access_token c' = a \<and> refresh_token c' = Some r \<and>
               token_expires_at c' = Some (str_py ext (clock w (ticks w) + n))))"
proof -
  let ?w1 = "after_post c w rest"
  let ?save = "atomic_save_tokens ext c ?w1
                 (dget d ''access_token'' JNull) (dget d ''refresh_token'' JNull)
                 (dget d ''expires_in'' (JNum 43200))"
  from assms(3) have "check_token_status r = Inr ()"
    by (simp add: check_token_status_def)
  with refresh_responded [OF assms(1,2)]
  have eq: "refresh_access_token ext c w = save_token_response ext c ?w1 r"
    by simp
  have lacking: "\<not> truthy (dget d ''access_token'' JNull) \<or> \<not> truthy (dget d ''refresh_token'' JNull) \<longrightarrow>
            (\<exists>w'. refresh_access_token ext c w =
                     (Inl (ValueError invalid_token_response_msg), c, w') \<and> fs w' = fs w)"
    using eq assms(4)
    by (auto simp: save_token_response_def response_json_def Let_def after_post_def)
  have present: "truthy (dget d ''access_token'' JNull) \<and> truthy (dget d ''refresh_token'' JNull) \<longrightarrow>
            refresh_access_token ext c w =
              (case ?save of
                 (Inl e, c', w') \<Rightarrow> (Inl e, c', w')
               | (Inr u, c', w') \<Rightarrow> (Inr (JObj d), c', w'))"
    using eq assms(4)
    by (auto simp: save_token_response_def response_json_def Let_def)
  have saved: "\<forall>td c' w'. refresh_access_token ext c w = (Inr td, c', w') \<longrightarrow>
            td = JObj d \<and>
            (\<exists>a r n kvs.
               map_of d ''access_token'' = Some (JStr a) \<and>
               map_of d ''refresh_token'' = Some (JStr r) \<and>
               token_lifetime d n \<and>
               fs w' (env_path c) = Some kvs \<and>
               map_of kvs ''FRESHBOOKS_ACCESS_TOKEN'' = Some a \<and>
               map_of kvs ''FRESHBOOKS_REFRESH_TOKEN'' = Some r \<and>
               map_of kvs ''FRESHBOOKS_TOKEN_EXPIRES_AT'' = Some (str_py ext (clock w (ticks w) + n)) \<and>
               access_token c' = a \<and> refresh_token c' = Some r \<and>
               token_expires_at c' = Some (str_py ext (clock w (ticks w) + n)))"
  proof (intro allI impI)
    fix td c' w'
    assume ok: "refresh_access_token ext c w = (Inr td, c', w')"
    with eq assms(4) have td: "td = JObj d" and "\<exists>u. ?save = (Inr u, c', w')"
      by (auto simp: save_token_response_def response_json_def Let_def
               split: if_splits prod.splits sum.splits)
    then obtain u where "?save = (Inr u, c', w')" by blast
    from atomic_save_Inr_state [OF this] obtain a r t kvs where
      st: "dget d ''access_token'' JNull = JStr a" "dget d ''refresh_token'' JNull = JStr r"
          "add_seconds (clock ?w1 (ticks ?w1)) (dget d ''expires_in'' (JNum 43200)) = Inr t"
          "fs w' (env_path c) = Some kvs"
          "map_of kvs ''FRESHBOOKS_ACCESS_TOKEN'' = Some a"
          "map_of kvs ''FRESHBOOKS_REFRESH_TOKEN'' = Some r"
          "map_of kvs ''FRESHBOOKS_TOKEN_EXPIRES_AT'' = Some (str_py ext t)"
          "c' = c\<lparr>access_token := a, refresh_token := Some r,
                  token_expires_at := Some (str_py ext t),
                  headers := dict_set ''Authorization'' (''Bearer '' @ a) (headers c)\<rparr>"
      by blast
    from add_seconds_lifetime [OF st(3)] obtain n where
      n: "token_lifetime d n" "t = clock w (ticks w) + n"
      by (auto simp: after_post_def)
    from td st(4-8) n dget_JStr [OF st(1)] dget_JStr [OF st(2)]
    show "td = JObj d \<and>
            (\<exists>a r n kvs.
               map_of d ''access_token'' = Some (JStr a) \<and>
               map_of d ''refresh_token'' = Some (JStr r) \<and>
               token_lifetime d n \<and>
               fs w' (env_path c) = Some kvs \<and>
               map_of kvs ''FRESHBOOKS_ACCESS_TOKEN'' = Some a \<and>
               map_of kvs ''FRESHBOOKS_REFRESH_TOKEN'' = Some r \<and>
               map_of kvs ''FRESHBOOKS_TOKEN_EXPIRES_AT'' = Some (str_py ext (clock w (ticks w) + n)) \<and>
               access_token c' = a \<and> refresh_token c' = Some r \<and>
               token_expires_at c' = Some (str_py ext (clock w (ticks w) + n)))"
      by auto
  qed
  from lacking present saved show ?thesis by (intro conjI)
qed

theorem malformed_token_response_witness:
  "fst (refresh_access_token builtins0 client0 world_no_refresh_in_body)
     = Inl (ValueError invalid_token_response_msg) \<and>
   fs (snd (snd (refresh_access_token builtins0 client0 world_no_refresh_in_body)))
     = fs world_no_refresh_in_body \<and>
   fst (refresh_access_token builtins0 client0 world_token_issued) = Inr token_body \<and>
   access_token (fst (snd (refresh_access_token builtins0 client0 world_token_issued))) = ''A2'' \<and>
   token_expires_at (fst (snd (refresh_access_token builtins0 client0 world_token_issued)))
     = Some (str_py builtins0 (2000 + 3600))"
proof -
  let ?r = "\<lparr>status_code = 200, body = Some (JObj [(''access_token'', JStr ''A2'')])\<rparr>"
  let ?s = "\<lparr>status_code = 200, body = Some token_body\<rparr>"
  let ?d = "[(''access_token'', JStr ''A2''), (''refresh_token'', JStr ''R2''),
             (''expires_in'', JNum 3600)]"
  let ?G = "refresh_access_token builtins0 client0 world_token_issued"
  have h1: "str_truthy (refresh_token client0)" by (simp add: base_defs world_no_refresh_in_body_def world_token_issued_def token_body_def)
  have h2: "net world_no_refresh_in_body = Inr ?r # []" by (simp add: base_defs world_no_refresh_in_body_def world_token_issued_def token_body_def)
  have h3: "status_code ?r = 200" by simp
  have h4: "body ?r = Some (JObj [(''access_token'', JStr ''A2'')])" by simp
  have lacks: "\<not> truthy (dget [(''access_token'', JStr ''A2'')] ''refresh_token'' JNull)"
    by (simp add: dget_def)
  from malformed_token_response [OF h1 h2 h3 h4, of builtins0] lacks
  have a: "fst (refresh_access_token builtins0 client0 world_no_refresh_in_body)
             = Inl (ValueError invalid_token_response_msg) \<and>
           fs (snd (snd (refresh_access_token builtins0 client0 world_no_refresh_in_body)))
             = fs world_no_refresh_in_body"
    by auto
  have g2: "net world_token_issued = Inr ?s # []" by (simp add: base_defs world_no_refresh_in_body_def world_token_issued_def token_body_def)
  have g3: "status_code ?s = 200" by simp
  have g4: "body ?s = Some (JObj ?d)"
    by (simp add: token_body_def)
  note th = malformed_token_response [OF h1 g2 g3 g4, of builtins0]
  have ok: "fst ?G = Inr token_body"
    by (simp add: base_defs world_no_refresh_in_body_def world_token_issued_def token_body_def persist_defs refresh_defs)
  then have "?G = (Inr token_body, fst (snd ?G), snd (snd ?G))"
    by (metis prod.collapse)
  with th obtain a r n where
    got: "map_of ?d ''access_token'' = Some (JStr a)" "token_lifetime ?d n"
         "access_token (fst (snd ?G)) = a"
         "token_expires_at (fst (snd ?G)) = Some (str_py builtins0 (clock world_token_issued
                                               (ticks world_token_issued) + n))"
    by blast
  from got(1) have "a = ''A2''" by simp
  moreover from got(2) have "n = 3600" by (simp add: token_lifetime_def)
  moreover have "clock world_token_issued (ticks world_token_issued) = 2000"
    by (simp add: base_defs world_no_refresh_in_body_def world_token_issued_def token_body_def)
  ultimately have b: "access_token (fst (snd ?G)) = ''A2'' \<and>
      token_expires_at (fst (snd ?G)) = Some (str_py builtins0 (2000 + 3600))"
    using got(3,4) by simp
  from a ok b show ?thesis by simp
qed

text \<open>
  A status-200 response whose body is a JSON array, or is not JSON at all, holds neither
  token, yet the refresh raises another error than the claim says: \<^verbatim>\<open>.get\<close> is not defined
  on a list (line 171), and \<^verbatim>\<open>response.json()\<close> raises on a body that is not JSON (line
  167).
\<close>

theorem malformed_token_response_counterexample:
  "fst (refresh_access_token builtins0 client0 world_array_body) = Inl AttributeError \<and>
   fst (refresh_access_token builtins0 client0 world_array_body)
     \<noteq> Inl (ValueError invalid_token_response_msg) \<and>
   fst (refresh_access_token builtins0 client0 world_no_json_body) = Inl JSONDecodeError \<and>
   fst (refresh_access_token builtins0 client0 world_no_json_body)
     \<noteq> Inl (ValueError invalid_token_response_msg)"
  by (simp add: base_defs world_array_body_def world_no_json_body_def persist_defs refresh_defs)

text \<open>
  For the statuses 400 to 599 the refresh fails with the HTTP error of the status when the
  body is a JSON object whose error is not \<^verbatim>\<open>invalid_grant\<close>.
\<close>

lemma auth_server_error_4xx_5xx:
  assumes "str_truthy (refresh_token c)"
    and "net w = Inr r # rest"
    and "400 \<le> status_code r" and "status_code r < 600"
    and "body r = Some (JObj d)"
    and "dget d ''error'' JNull \<noteq> JStr ''invalid_grant''"
  shows "\<exists>w'. refresh_access_token ext c w = (Inl (HTTPError (status_code r)), c, w') \<and>
              fs w' = fs w"
proof -
  from assms(3-6) have "check_token_status r = Inl (HTTPError (status_code r))"
    by (simp add: check_token_status_def response_json_def raise_for_status_def)
  with refresh_responded [OF assms(1,2)] show ?thesis
    by (simp add: after_post_def)
qed

text \<open>
  Claim C8 does not hold for every status other than 200. \<^verbatim>\<open>raise_for_status\<close> raises
  for 400 to 599 only, so a response with another status, here 300, falls through line
  165 and is read as a successful token response: the refresh returns and the store is
  rewritten with the tokens of the body.
\<close>

theorem refresh_non_success_falls_through:
  "fst (refresh_access_token builtins0 client0 world_multiple_choices) = Inr token_body \<and>
   fs world_multiple_choices (env_path client0) = Some dotenv0 \<and>
   fs (snd (snd (refresh_access_token builtins0 client0 world_multiple_choices))) (env_path client0)
     = Some [(''FRESHBOOKS_ACCESS_TOKEN'', ''A2''), (''FRESHBOOKS_REFRESH_TOKEN'', ''R2''),
             (''FRESHBOOKS_TOKEN_EXPIRES_AT'', str_py builtins0 5600)]"
  by (simp add: base_defs world_multiple_choices_def token_body_def persist_defs refresh_defs)

section \<open>Properties of \<^verbatim>\<open>_make_request\<close> and \<^verbatim>\<open>send_invoice\<close>\<close>

lemma precheck_trace:
  assumes "precheck ext c w = (c1, w1)"
  shows "\<exists>evs. trace w1 = trace w @ evs \<and> count_requests evs = 0 \<and> count_posts evs \<le> 1"
proof -
  obtain b w0 where e: "is_token_expired ext c w = (b, w0)"
    by (cases "is_token_expired ext c w") auto
  note t0 = is_token_expired_frame(1) [OF e]
  show ?thesis
  proof (cases b)
    case False
    with assms e t0 show ?thesis by (simp add: precheck_def)
  next
    case True
    obtain rres c2 w2 where r: "refresh_access_token ext c (log ExpiredRefreshing w0) = (rres, c2, w2)"
      by (cases "refresh_access_token ext c (log ExpiredRefreshing w0)") auto
    from refresh_trace [OF r] obtain evs where
      evs: "trace w2 = trace (log ExpiredRefreshing w0) @ evs" "count_requests evs = 0" "count_posts evs \<le> 1"
      by blast
    from assms e True r have "trace w1 = trace w2 \<or> (\<exists>x. trace w1 = trace w2 @ [Printed (RefreshFailed x)])"
      by (auto simp: precheck_def split: sum.splits)
    with evs t0 show ?thesis by auto
  qed
qed


lemma finish_response_ok:
  "status_code r = 200 \<Longrightarrow> body r = Some j \<Longrightarrow> finish_response r = Inr j"
  by (simp add: finish_response_def raise_for_status_def response_json_def)

lemma log_reraised_trace:
  "\<exists>m. trace (log_reraised e w) = trace w @ [Printed m]"
  by (simp add: log_reraised_def)

lemma send_with_retry_no_retry:
  assumes "http_request w method url (headers c) data params = (Inr r, w1)"
    and "status_code r \<noteq> 401"
  shows "send_with_retry ext c w method url data params = (finish_response r, c, w1)"
  using assms by (simp add: send_with_retry_def)

lemma send_with_retry_refresh_failed:
  assumes "http_request w method url (headers c) data params = (Inr r, w1)"
    and "status_code r = 401"
    and "refresh_access_token ext c (log Got401 w1) = (Inl e, c2, w2)"
  shows "send_with_retry ext c w method url data params = (Inl e, c2, log_reraised e w2)"
  using assms by (simp add: send_with_retry_def)

lemma send_with_retry_retried:
  assumes "http_request w method url (headers c) data params = (Inr r, w1)"
    and "status_code r = 401"
    and "refresh_access_token ext c (log Got401 w1) = (Inr td, c2, w2)"
    and "http_request w2 method url (headers c2) data params = (out, w3)"
  shows "send_with_retry ext c w method url data params =
           (case out of Inl e \<Rightarrow> (Inl e, c2, log_reraised e w3)
                      | Inr r' \<Rightarrow> (finish_response r', c2, w3))"
  using assms by (simp add: send_with_retry_def split: sum.splits)

lemma send_with_retry_trace:
  assumes "send_with_retry ext c w method url data params = (res, c', w')"
  shows "\<exists>rest. trace w' = trace w @ Request method url (headers c) data params # rest \<and>
                count_requests rest \<le> 1 \<and> count_posts rest \<le> 1"
proof -
  obtain out w1 where h: "http_request w method url (headers c) data params = (out, w1)"
    by (cases "http_request w method url (headers c) data params") auto
  note t1 = http_request_frame(1) [OF h]
  show ?thesis
  proof (cases out)
    case (Inl e)
    with assms h t1 show ?thesis by (auto simp: send_with_retry_def)
  next
    case (Inr r)
    show ?thesis
    proof (cases "status_code r = 401")
      case False
      from send_with_retry_no_retry [OF h [unfolded Inr] False] assms t1 show ?thesis by auto
    next
      case True
      obtain rres c2 w2 where rf: "refresh_access_token ext c (log Got401 w1) = (rres, c2, w2)"
        by (cases "refresh_access_token ext c (log Got401 w1)") auto
      from refresh_trace [OF rf] obtain evs where
        evs: "trace w2 = trace w1 @ Printed Got401 # evs" "count_requests evs = 0" "count_posts evs \<le> 1"
        by auto
      show ?thesis
      proof (cases rres)
        case (Inl e)
        from send_with_retry_refresh_failed [OF h [unfolded Inr] True rf [unfolded Inl]] assms
        have "w' = log_reraised e w2" by simp
        with log_reraised_trace [of e w2] evs t1 show ?thesis by auto
      next
        case rok: (Inr td)
        obtain out2 w3 where h2: "http_request w2 method url (headers c2) data params = (out2, w3)"
          by (cases "http_request w2 method url (headers c2) data params") auto
        note t3 = http_request_frame(1) [OF h2]
        from send_with_retry_retried [OF h [unfolded Inr] True rf [unfolded rok] h2] assms
        have "w' = w3 \<or> (\<exists>e. w' = log_reraised e w3)"
          by (auto split: sum.splits)
        then show ?thesis
        proof
          assume "w' = w3"
          with t3 evs t1 show ?thesis by auto
        next
          assume "\<exists>e. w' = log_reraised e w3"
          then obtain e where "w' = log_reraised e w3" by blast
          with log_reraised_trace [of e w3] t3 evs t1 show ?thesis by auto
        qed
      qed
    qed
  qed
qed

lemma make_request_unfold:
  assumes "precheck ext c w = (c1, w1)"
  shows "make_request ext c w method endpoint data params =
           send_with_retry ext c1 w1 method (base_url c @ endpoint) data params"
  using assms by (simp add: make_request_def)

lemma make_request_issues_request:
  assumes "make_request ext c w method endpoint data params = (res, c', w')"
  shows "\<exists>hs before rest.
           trace w' = trace w @ before @ Request method (base_url c @ endpoint) hs data params # rest \<and>
           count_requests before = 0"
proof -
  obtain c1 w1 where p: "precheck ext c w = (c1, w1)"
    by (cases "precheck ext c w") auto
  from precheck_trace [OF p] obtain evs where
    evs: "trace w1 = trace w @ evs" "count_requests evs = 0" by blast
  from assms make_request_unfold [OF p]
  have "send_with_retry ext c1 w1 method (base_url c @ endpoint) data params = (res, c', w')"
    by simp
  from send_with_retry_trace [OF this] evs show ?thesis by auto
qed



text \<open>
  Claim C9. When \<^verbatim>\<open>is_token_expired\<close> answers true, one refresh is attempted before any
  request is sent: after the announcement come the events of that refresh, among them no
  request and at most one exchange with the token endpoint. If the refresh raises, the
  in-memory state is as before, the error is printed, and the call goes on as
  \<^verbatim>\<open>_make_request\<close> does after the check: the next event is the request, sent with the
  unchanged headers, and a response other than a 401 decides the result, not the error of
  the refresh.
\<close>

theorem proactive_refresh_swallowed:
  assumes expired: "is_token_expired ext c w = (True, w0)"
    and refresh: "refresh_access_token ext c (log ExpiredRefreshing w0) = (rres, c1, w1)"
    and call: "make_request ext c w method endpoint data params = (res, c', w')"
  shows "(\<exists>evs. trace w1 = trace w @ Printed ExpiredRefreshing # evs \<and>
                count_requests evs = 0 \<and> count_posts evs \<le> 1) \<and>
         (case rres of
            Inl e \<Rightarrow>
              c1 = c \<and>
              (res, c', w') = send_with_retry ext c (log (RefreshFailed e) w1) method
                                (base_url c @ endpoint) data params \<and>
              (\<exists>rest. trace w' = trace w1 @ Printed (RefreshFailed e) #
                         Request method (base_url c @ endpoint) (headers c) data params # rest) \<and>
              (\<forall>r w2. http_request (log (RefreshFailed e) w1) method (base_url c @ endpoint)
                          (headers c) data params = (Inr r, w2) \<and> status_code r \<noteq> 401
                       \<longrightarrow> res = finish_response r)
          | Inr td \<Rightarrow>
              (res, c', w') = send_with_retry ext c1 w1 method (base_url c @ endpoint) data params \<and>
              (\<exists>rest. trace w' = trace w1 @
                         Request method (base_url c @ endpoint) (headers c1) data params # rest))"
proof
  from refresh_trace [OF refresh] is_token_expired_frame(1) [OF expired]
  show "\<exists>evs. trace w1 = trace w @ Printed ExpiredRefreshing # evs \<and>
              count_requests evs = 0 \<and> count_posts evs \<le> 1"
    by auto
next
  let ?url = "base_url c @ endpoint"
  show "case rres of
            Inl e \<Rightarrow>
              c1 = c \<and>
              (res, c', w') = send_with_retry ext c (log (RefreshFailed e) w1) method ?url data params \<and>
              (\<exists>rest. trace w' = trace w1 @ Printed (RefreshFailed e) #
                         Request method ?url (headers c) data params # rest) \<and>
              (\<forall>r w2. http_request (log (RefreshFailed e) w1) method ?url
                          (headers c) data params = (Inr r, w2) \<and> status_code r \<noteq> 401
                       \<longrightarrow> res = finish_response r)
          | Inr td \<Rightarrow>
              (res, c', w') = send_with_retry ext c1 w1 method ?url data params \<and>
              (\<exists>rest. trace w' = trace w1 @ Request method ?url (headers c1) data params # rest)"
  proof (cases rres)
    case (Inl e)
    from refresh_Inl_client [OF refresh [unfolded Inl]] have c1: "c1 = c" .
    from expired refresh Inl c1 have "precheck ext c w = (c, log (RefreshFailed e) w1)"
      by (simp add: precheck_def)
    from make_request_unfold [OF this] call
    have swr: "send_with_retry ext c (log (RefreshFailed e) w1) method ?url data params = (res, c', w')"
      by simp
    from send_with_retry_trace [OF swr] obtain rest where
      "trace w' = trace w1 @ Printed (RefreshFailed e) # Request method ?url (headers c) data params # rest"
      by auto
    moreover have "\<forall>r w2. http_request (log (RefreshFailed e) w1) method ?url
                          (headers c) data params = (Inr r, w2) \<and> status_code r \<noteq> 401
                       \<longrightarrow> res = finish_response r"
      using send_with_retry_no_retry swr by fastforce
    ultimately show ?thesis using Inl c1 swr by simp
  next
    case (Inr td)
    from expired refresh Inr have "precheck ext c w = (c1, w1)"
      by (simp add: precheck_def)
    from make_request_unfold [OF this] call
    have swr: "send_with_retry ext c1 w1 method ?url data params = (res, c', w')"
      by simp
    from send_with_retry_trace [OF swr] obtain rest where
      "trace w' = trace w1 @ Request method ?url (headers c1) data params # rest"
      by auto
    with Inr swr show ?thesis by simp
  qed
qed

theorem proactive_refresh_swallowed_witness:
  "fst (is_token_expired builtins0 client0 world_offline_auth) \<and>
   fst (refresh_access_token builtins0 client0
          (log ExpiredRefreshing (world_offline_auth\<lparr>ticks := 1\<rparr>))) = Inl ConnectionError \<and>
   fst (make_request builtins0 client0 world_offline_auth ''GET'' ''/x'' None None) = Inr ok_body"
proof -
  let ?R = "make_request builtins0 client0 world_offline_auth ''GET'' ''/x'' None None"
  let ?w0 = "world_offline_auth\<lparr>ticks := 1\<rparr>"
  let ?F = "refresh_access_token builtins0 client0 (log ExpiredRefreshing ?w0)"
  let ?send = "http_request (log (RefreshFailed ConnectionError) (snd (snd ?F))) ''GET''
                 (base_url client0 @ ''/x'') (headers client0) None None"
  let ?r = "\<lparr>status_code = 200, body = Some ok_body\<rparr>"
  have expired: "is_token_expired builtins0 client0 world_offline_auth = (True, ?w0)"
    by (simp add: base_defs world_offline_auth_def ok_body_def persist_defs refresh_defs request_defs)
  have refresh: "?F = (fst ?F, fst (snd ?F), snd (snd ?F))" by simp
  have call: "?R = (fst ?R, fst (snd ?R), snd (snd ?R))" by simp
  have failed: "fst ?F = Inl ConnectionError"
    by (simp add: base_defs world_offline_auth_def ok_body_def persist_defs refresh_defs request_defs)
  have sent: "?send = (Inr ?r, snd ?send) \<and> status_code ?r \<noteq> 401"
    by (simp add: base_defs world_offline_auth_def ok_body_def persist_defs refresh_defs request_defs)
  note th = proactive_refresh_swallowed [OF expired refresh call, unfolded failed sum.case]
  from th have "\<forall>r w2. http_request (log (RefreshFailed ConnectionError) (snd (snd ?F))) ''GET''
                 (base_url client0 @ ''/x'') (headers client0) None None = (Inr r, w2) \<and>
               status_code r \<noteq> 401 \<longrightarrow> fst ?R = finish_response r"
    by blast
  with sent have "fst ?R = finish_response ?r" by blast
  then have "fst ?R = Inr ok_body" by (simp add: finish_response_ok)
  with expired failed show ?thesis by simp
qed

text \<open>
  Claim C10. \<^verbatim>\<open>send_invoice\<close> called without \<^verbatim>\<open>humanApproved\<close>, or with \<^verbatim>\<open>False\<close>, raises
  the safety-check error, whose message asks for explicit human approval, and leaves the
  object and the world as they were, so no request is sent. Called with \<^verbatim>\<open>True\<close> it is the
  \<^verbatim>\<open>PUT\<close> of the send action through \<^verbatim>\<open>_make_request\<close>, and that request is sent.
\<close>

theorem send_invoice_requires_approval:
  "send_invoice ext c w invoice_id None = (Inl (ValueError safety_check_msg), c, w) \<and>
   send_invoice ext c w invoice_id (Some False) = (Inl (ValueError safety_check_msg), c, w) \<and>
   (\<exists>pre post. safety_check_msg = pre @ ''without explicit human approval'' @ post) \<and>
   send_invoice ext c w invoice_id (Some True) =
     make_request ext c w ''PUT'' (send_endpoint c invoice_id) (Some send_body) None \<and>
   (\<exists>hs before rest.
      trace (snd (snd (send_invoice ext c w invoice_id (Some True)))) =
        trace w @ before @
        Request ''PUT'' (base_url c @ send_endpoint c invoice_id) hs (Some send_body) None # rest \<and>
      count_requests before = 0)"
proof -
  have msg: "safety_check_msg =
          ''SAFETY CHECK: Invoice cannot be sent '' @ ''without explicit human approval'' @
          (''. '' @
           ''Set humanApproved=True only after receiving explicit permission from the user. '' @
           ''Example: client.send_invoice(invoice_id, humanApproved=True)'')"
    by (simp add: safety_check_msg_def)
  then have contains: "\<exists>pre post. safety_check_msg = pre @ ''without explicit human approval'' @ post"
    by blast
  have refused: "send_invoice ext c w invoice_id None = (Inl (ValueError safety_check_msg), c, w)"
    "send_invoice ext c w invoice_id (Some False) = (Inl (ValueError safety_check_msg), c, w)"
    by (simp_all add: send_invoice_def)
  have sent: "send_invoice ext c w invoice_id (Some True) =
     make_request ext c w ''PUT'' (send_endpoint c invoice_id) (Some send_body) None"
    by (simp add: send_invoice_def send_endpoint_def send_body_def)
  obtain res c' w' where
    mr: "make_request ext c w ''PUT'' (send_endpoint c invoice_id) (Some send_body) None = (res, c', w')"
    by (cases "make_request ext c w ''PUT'' (send_endpoint c invoice_id) (Some send_body) None") auto
  from make_request_issues_request [OF mr] sent mr
  have issued: "\<exists>hs before rest.
      trace (snd (snd (send_invoice ext c w invoice_id (Some True)))) =
        trace w @ before @
        Request ''PUT'' (base_url c @ send_endpoint c invoice_id) hs (Some send_body) None # rest \<and>
      count_requests before = 0"
    by simp
  from refused contains sent issued show ?thesis
    by (intro conjI)
qed

theorem send_invoice_requires_approval_witness:
  "send_invoice builtins0 client_fresh world_401 ''42'' None =
     (Inl (ValueError safety_check_msg), client_fresh, world_401) \<and>
   fst (send_invoice builtins0 client_fresh (world0\<lparr>net := [Inr \<lparr>status_code = 200, body = Some ok_body\<rparr>]\<rparr>)
          ''42'' (Some True)) = Inr ok_body"
proof -
  from send_invoice_requires_approval [of builtins0 client_fresh world_401 "''42''"]
  have a: "send_invoice builtins0 client_fresh world_401 ''42'' None =
     (Inl (ValueError safety_check_msg), client_fresh, world_401)"
    by blast
  from send_invoice_requires_approval
    [of builtins0 client_fresh "world0\<lparr>net := [Inr \<lparr>status_code = 200, body = Some ok_body\<rparr>]\<rparr>" "''42''"]
  have "send_invoice builtins0 client_fresh (world0\<lparr>net := [Inr \<lparr>status_code = 200, body = Some ok_body\<rparr>]\<rparr>)
          ''42'' (Some True) =
        make_request builtins0 client_fresh (world0\<lparr>net := [Inr \<lparr>status_code = 200, body = Some ok_body\<rparr>]\<rparr>)
          ''PUT'' (send_endpoint client_fresh ''42'') (Some send_body) None"
    by blast
  then have b: "fst (send_invoice builtins0 client_fresh
                       (world0\<lparr>net := [Inr \<lparr>status_code = 200, body = Some ok_body\<rparr>]\<rparr>)
                       ''42'' (Some True)) = Inr ok_body"
    by (simp add: base_defs client_fresh_def ok_body_def persist_defs refresh_defs request_defs send_invoice_def send_endpoint_def send_body_def)
  from a b show ?thesis by (intro conjI)
qed

end
